theory Spec2Isabelle
  imports Complex_Main "HOL-Library.AList"
begin

section \<open>Collaborators and conventions\<close>

text \<open>
  The quantum core (\<^verbatim>\<open>core/quantum/*.py\<close>) is embedded function by function. A Python
  method \<^verbatim>\<open>_name\<close> is the constant \<open>name\<close> (an Isabelle name cannot start with an
  underscore); \<^verbatim>\<open>self\<close> is passed explicitly and a method that mutates it returns the
  new object. An exception is the \<open>Inl\<close> branch of a sum.

  Two collaborators are not embedded from their source.
  \<^item> The timestamp service: every component calls
    \<^verbatim>\<open>self.timestamp.get_current_timestamp()\<close>, a method that
    \<^verbatim>\<open>core/utils/timestamp_manager.py\<close> does not define. Its answers are taken as a
    parameter: \<open>now e k\<close> is the string answered to the \<open>k\<close>-th request made during one
    call of an operation. Nothing is assumed about these strings.
  \<^item> The user name: \<^verbatim>\<open>log_event\<close> of \<^verbatim>\<open>core/utils/logging_manager.py\<close> asks the
    timestamp manager for \<^verbatim>\<open>get_current_timestamp()\<close> and \<^verbatim>\<open>get_current_user()\<close>,
    both missing; their answers are taken to be strings.

  The rest of \<^verbatim>\<open>log_event\<close> is followed: it checks the category and the level and
  hands the event to \<^verbatim>\<open>json.dumps\<close>, which raises \<^verbatim>\<open>TypeError\<close> on a value that is not
  JSON. In \<^verbatim>\<open>memory_interface.py\<close> and \<^verbatim>\<open>error_mitigation.py\<close> every logged value is a
  string, a number, a list of integers or a dictionary of strings, the category is
  \<^verbatim>\<open>quantum\<close> and the level is one of the five known: the call returns, and it is not
  written out there. In \<^verbatim>\<open>encoding_methods.py\<close> the logged record holds a NumPy array,
  and the call is part of the model. An error handler
  \<^verbatim>\<open>except Exception: log_event(..., "ERROR", text); raise\<close> logs a string and re-raises
  what the body raised.

  \<^verbatim>\<open>id(circuit)\<close>, the interpreter's address of a dictionary, is the parameter \<open>addr\<close>.
  Floating-point numbers are modelled by exact reals and complex numbers, with \<open>None\<close>
  for NaN, the value of \<open>0 / 0\<close>. The program rounds every result to a double: where a
  theorem gives a product or a quotient, it gives the exact value that the program
  rounds, and no theorem of a claim asserts a strict inequality that rounding can undo.
\<close>

record env =
  now :: "nat \<Rightarrow> string"
  addr :: nat

definition later :: "nat \<Rightarrow> env \<Rightarrow> env" where
  "later k e = e\<lparr>now := (\<lambda>i. now e (i + k))\<rparr>"

datatype pyval =
    Str string
  | Num "real option"
  | Flag bool
  | IntList "nat list"
  | NdArray "complex option list"

type_synonym pydict = "(string \<times> pyval) list"

datatype error =
    UnknownEncodingScheme string
  | UnknownEncodingMethod string
  | StateNotFound string
  | PadNegative
  | NotBroadcastable nat nat
  | ShapesNotAligned nat nat
  | UnboundLocal
  | NotJSONSerializable string
  | InvalidLogCategory string
  | InvalidLogLevel string

text \<open>
  \<open>UnknownEncodingScheme\<close> and \<open>UnknownEncodingMethod\<close> are the two
  \<^verbatim>\<open>raise ValueError(...)\<close> of the source and \<open>StateNotFound\<close> its
  \<^verbatim>\<open>raise KeyError(...)\<close>. The others are raised by NumPy and Python themselves:
  \<open>PadNegative\<close> by \<^verbatim>\<open>np.pad\<close> on a negative width, \<open>NotBroadcastable m n\<close> by an
  in-place \<^verbatim>\<open>+=\<close> of a length-\<open>n\<close> array into a length-\<open>m\<close> array,
  \<open>ShapesNotAligned m n\<close> by \<^verbatim>\<open>np.dot\<close> on vectors of lengths \<open>m \<noteq> n\<close> (all three are
  \<^verbatim>\<open>ValueError\<close>), \<open>UnboundLocal\<close> by reading a local variable no branch assigned,
  \<open>NotJSONSerializable t\<close> by \<^verbatim>\<open>json.dumps\<close> on an object of type \<open>t\<close> (a
  \<^verbatim>\<open>TypeError\<close>). \<open>InvalidLogCategory\<close> and \<open>InvalidLogLevel\<close> are the two
  \<^verbatim>\<open>raise ValueError(...)\<close> of \<^verbatim>\<open>log_event\<close>.
\<close>

subsection \<open>Python's \<^verbatim>\<open>str\<close> on a non-negative integer\<close>

definition digit_char :: "nat \<Rightarrow> char" where
  "digit_char d = ''0123456789'' ! d"

function str_nat :: "nat \<Rightarrow> string" where
  "str_nat n = (if n < 10 then [digit_char n] else str_nat (n div 10) @ [digit_char (n mod 10)])"
  by pat_completeness auto
termination
  by (relation "measure (\<lambda>n. n)") auto

declare str_nat.simps [simp del]

section \<open>\<^verbatim>\<open>logging_manager.py\<close>: \<^verbatim>\<open>log_event\<close>\<close>

text \<open>
  \<^verbatim>\<open>json.dumps\<close> walks the dictionary in order and raises at the first value that is not
  JSON; of the values of the model only a NumPy array is not (NaN is written as
  \<^verbatim>\<open>NaN\<close>). The event that \<^verbatim>\<open>log_event\<close> serialises holds the timestamp, the user and
  the message, all strings, and then the keyword arguments.
\<close>

fun json_dumps :: "pydict \<Rightarrow> error + unit" where
  "json_dumps [] = Inr ()"
| "json_dumps ((k, NdArray a) # rest) = Inl (NotJSONSerializable ''ndarray'')"
| "json_dumps ((k, v) # rest) = json_dumps rest"

definition log_categories :: "string list" where
  "log_categories = [''system'', ''quantum'', ''security'', ''performance'', ''audit'']"

definition log_levels :: "string list" where
  "log_levels = [''DEBUG'', ''INFO'', ''WARNING'', ''ERROR'', ''CRITICAL'']"

definition log_event :: "string \<Rightarrow> string \<Rightarrow> string \<Rightarrow> pydict \<Rightarrow> error + unit" where
  "log_event category level message kwargs =
     (if category \<notin> set log_categories then Inl (InvalidLogCategory category)
      else if level \<notin> set log_levels then Inl (InvalidLogLevel level)
      else json_dumps ((''message'', Str message) # kwargs))"

section \<open>\<^verbatim>\<open>quantum_circuit.py\<close>: the circuit manager\<close>

text \<open>Only the declared qubit capacity of the manager is read by the other components.\<close>

record QuantumCircuitManager =
  n_qubits :: nat

section \<open>\<^verbatim>\<open>error_mitigation.py\<close>\<close>

record ErrorModel =
  em_name :: string
  em_rate :: real
  em_type :: string
  affected_qubits :: "nat list"
  mitigation_strategy :: string

record ErrorMitigationSystem =
  ems_circuit_manager :: QuantumCircuitManager

text \<open>The dictionary \<^verbatim>\<open>self.error_models\<close> built by the constructor, in insertion order.\<close>

definition error_models :: "ErrorMitigationSystem \<Rightarrow> (string \<times> ErrorModel) list" where
  "error_models self =
     [(''decoherence'',
         \<lparr>em_name = ''decoherence'', em_rate = 1 / 1000, em_type = ''continuous'',
          affected_qubits = [0..<n_qubits (ems_circuit_manager self)],
          mitigation_strategy = ''dynamical_decoupling''\<rparr>),
      (''gate_error'',
         \<lparr>em_name = ''gate_error'', em_rate = 5 / 10000, em_type = ''discrete'',
          affected_qubits = [0..<n_qubits (ems_circuit_manager self)],
          mitigation_strategy = ''gate_optimization''\<rparr>),
      (''measurement'',
         \<lparr>em_name = ''measurement'', em_rate = 2 / 1000, em_type = ''readout'',
          affected_qubits = [0..<n_qubits (ems_circuit_manager self)],
          mitigation_strategy = ''readout_error_mitigation''\<rparr>)]"

text \<open>
  A strategy result is the dictionary with the keys \<^verbatim>\<open>model\<close>, \<^verbatim>\<open>timestamp\<close>,
  \<^verbatim>\<open>affected_qubits\<close> and \<^verbatim>\<open>success\<close>; \<open>sr_more\<close> holds the keys that
  \<^verbatim>\<open>dict.update\<close> adds (\<^verbatim>\<open>method\<close> and the technique's descriptor).
\<close>

record strategy_result =
  sr_model :: string
  sr_timestamp :: string
  sr_affected_qubits :: "nat list"
  sr_success :: bool
  sr_more :: "(string \<times> string) list"

record technique =
  tq_method :: string
  tq_descriptor :: "string \<times> string"
  tq_success :: bool

definition apply_dynamical_decoupling :: "pydict \<Rightarrow> ErrorModel \<Rightarrow> technique" where
  "apply_dynamical_decoupling circuit error_model =
     \<lparr>tq_method = ''dynamical_decoupling'', tq_descriptor = (''pulse_sequence'', ''CPMG''),
      tq_success = True\<rparr>"

definition apply_gate_optimization :: "pydict \<Rightarrow> ErrorModel \<Rightarrow> technique" where
  "apply_gate_optimization circuit error_model =
     \<lparr>tq_method = ''gate_optimization'', tq_descriptor = (''optimization_type'', ''pulse_shaping''),
      tq_success = True\<rparr>"

definition apply_readout_mitigation :: "pydict \<Rightarrow> ErrorModel \<Rightarrow> technique" where
  "apply_readout_mitigation circuit error_model =
     \<lparr>tq_method = ''readout_mitigation'', tq_descriptor = (''calibration'', ''symmetric''),
      tq_success = True\<rparr>"

text \<open>\<^verbatim>\<open>strategy_result.update(d)\<close> for the three-key dictionary of a technique.\<close>

definition dict_update :: "strategy_result \<Rightarrow> technique \<Rightarrow> strategy_result" where
  "dict_update r t =
     r\<lparr>sr_success := tq_success t,
       sr_more := AList.update (fst (tq_descriptor t)) (snd (tq_descriptor t))
                    (AList.update ''method'' (tq_method t) (sr_more r))\<rparr>"

definition apply_strategy :: "string \<Rightarrow> pydict \<Rightarrow> ErrorModel \<Rightarrow> strategy_result" where
  "apply_strategy ts circuit error_model =
     (let strategy_result =
            \<lparr>sr_model = em_name error_model, sr_timestamp = ts,
             sr_affected_qubits = affected_qubits error_model, sr_success = False,
             sr_more = []\<rparr>
      in if mitigation_strategy error_model = ''dynamical_decoupling''
           then dict_update strategy_result (apply_dynamical_decoupling circuit error_model)
         else if mitigation_strategy error_model = ''gate_optimization''
           then dict_update strategy_result (apply_gate_optimization circuit error_model)
         else if mitigation_strategy error_model = ''readout_error_mitigation''
           then dict_update strategy_result (apply_readout_mitigation circuit error_model)
         else strategy_result)"

record mitigation_spec =
  mit_timestamp :: string
  circuit_id :: nat
  applied_strategies :: "strategy_result list"

text \<open>
  The loop \<^verbatim>\<open>for strategy in strategies\<close>: \<open>k\<close> counts the timestamp requests made so
  far, one by each strategy that is applied.
\<close>

fun strategies_loop ::
  "ErrorMitigationSystem \<Rightarrow> env \<Rightarrow> nat \<Rightarrow> pydict \<Rightarrow> string list \<Rightarrow> strategy_result list" where
  "strategies_loop self e k circuit [] = []"
| "strategies_loop self e k circuit (strategy # rest) =
     (case map_of (error_models self) strategy of
        Some error_model \<Rightarrow>
          apply_strategy (now e k) circuit error_model
            # strategies_loop self e (Suc k) circuit rest
      | None \<Rightarrow> strategies_loop self e k circuit rest)"

definition apply_error_mitigation ::
  "ErrorMitigationSystem \<Rightarrow> env \<Rightarrow> pydict \<Rightarrow> string list option \<Rightarrow> error + mitigation_spec" where
  "apply_error_mitigation self e circuit strategies =
     (let strategies = (case strategies of
                          None \<Rightarrow> [''decoherence'', ''gate_error'', ''measurement'']
                        | Some l \<Rightarrow> l)
      in Inr \<lparr>mit_timestamp = now e 0, circuit_id = addr e,
              applied_strategies = strategies_loop self e 1 circuit strategies\<rparr>)"

section \<open>\<^verbatim>\<open>memory_interface.py\<close>\<close>

record MemoryState =
  ms_id :: string
  ms_qubits :: "nat list"
  ms_encoding :: string
  ms_fidelity :: real
  ms_timestamp :: string
  ms_metadata :: "(string \<times> string) list"

text \<open>
  \<^verbatim>\<open>self.memory_states\<close> is a dictionary: an association list in insertion order, written
  with \<open>AList.update\<close> (a present key keeps its place, a new key goes last).
\<close>

record QuantumMemoryInterface =
  circuit_manager :: QuantumCircuitManager
  error_mitigation :: ErrorMitigationSystem
  memory_states :: "(string \<times> MemoryState) list"

definition new_interface ::
  "QuantumCircuitManager \<Rightarrow> ErrorMitigationSystem \<Rightarrow> QuantumMemoryInterface" where
  "new_interface cm ems =
     \<lparr>circuit_manager = cm, error_mitigation = ems, memory_states = []\<rparr>"

definition direct_encoding :: "real list \<Rightarrow> real list" where
  "direct_encoding data = data"

definition compressed_encoding :: "real list \<Rightarrow> real list" where
  "compressed_encoding data = data"

definition error_protected_encoding :: "real list \<Rightarrow> real list" where
  "error_protected_encoding data = data"

definition encoding_schemes :: "(string \<times> (real list \<Rightarrow> real list)) list" where
  "encoding_schemes =
     [(''direct'', direct_encoding),
      (''compressed'', compressed_encoding),
      (''error_protected'', error_protected_encoding)]"

definition generate_state_id :: "QuantumMemoryInterface \<Rightarrow> string \<Rightarrow> string" where
  "generate_state_id self ts =
     ''state_'' @ ts @ ''_'' @ str_nat (length (memory_states self))"

definition allocate_qubits :: "QuantumMemoryInterface \<Rightarrow> real list \<Rightarrow> nat list" where
  "allocate_qubits self encoded_state =
     (let n_required = length encoded_state;
          available_qubits = [0..<n_qubits (circuit_manager self)]
      in take n_required available_qubits)"

text \<open>
  \<^verbatim>\<open>store_state\<close>. The timestamp service is asked first for the identifier, then for the
  record, then by the error mitigation. The result pairs the interface after the call
  with the returned identifier or the raised error.
\<close>

definition store_state ::
  "env \<Rightarrow> QuantumMemoryInterface \<Rightarrow> real list \<Rightarrow> string \<Rightarrow> (string \<times> string) list option
     \<Rightarrow> QuantumMemoryInterface \<times> (error + string)" where
  "store_state e self data encoding_scheme metadata =
     (let metadata = (case metadata of None \<Rightarrow> [] | Some m \<Rightarrow> m);
          state_id = generate_state_id self (now e 0)
      in case map_of encoding_schemes encoding_scheme of
           None \<Rightarrow> (self, Inl (UnknownEncodingScheme encoding_scheme))
         | Some scheme \<Rightarrow>
             (let encoded_state = scheme data;
                  memory_state =
                    \<lparr>ms_id = state_id, ms_qubits = allocate_qubits self encoded_state,
                     ms_encoding = encoding_scheme, ms_fidelity = 1,
                     ms_timestamp = now e 1, ms_metadata = metadata\<rparr>
              in case apply_error_mitigation (error_mitigation self) (later 2 e)
                        [(''type'', Str ''memory''), (''state_id'', Str state_id),
                         (''qubits'', IntList (ms_qubits memory_state))] None of
                   Inl err \<Rightarrow> (self, Inl err)
                 | Inr report \<Rightarrow>
                     (self\<lparr>memory_states :=
                              AList.update state_id memory_state (memory_states self)\<rparr>,
                      Inr state_id)))"

definition decode_state :: "MemoryState \<Rightarrow> real list" where
  "decode_state memory_state = replicate (length (ms_qubits memory_state)) 0"

definition retrieve_state :: "QuantumMemoryInterface \<Rightarrow> string \<Rightarrow> error + real list" where
  "retrieve_state self state_id =
     (case map_of (memory_states self) state_id of
        None \<Rightarrow> Inl (StateNotFound state_id)
      | Some memory_state \<Rightarrow> Inr (decode_state memory_state))"

definition calculate_storage_time :: "string \<Rightarrow> real" where
  "calculate_storage_time stored_timestamp = 1 / 10"

text \<open>
  \<^verbatim>\<open>monitor_state_fidelity\<close> updates each stored state in place and returns the dictionary of
  the new fidelities, in the order of the stored states.
\<close>

text \<open>
  The product of \<open>decay\<close> is exact; the program rounds it to the nearest double, which
  keeps it between \<open>0\<close> and the old fidelity but, at the smallest doubles, can give the
  old fidelity back.
\<close>

definition decay :: "MemoryState \<Rightarrow> MemoryState" where
  "decay state =
     (let time_stored = calculate_storage_time (ms_timestamp state)
      in state\<lparr>ms_fidelity := ms_fidelity state * exp (- (1 / 10) * time_stored)\<rparr>)"

definition monitor_state_fidelity ::
  "QuantumMemoryInterface \<Rightarrow> QuantumMemoryInterface \<times> (error + (string \<times> real) list)" where
  "monitor_state_fidelity self =
     (let states = map (\<lambda>(state_id, state). (state_id, decay state)) (memory_states self)
      in (self\<lparr>memory_states := states\<rparr>,
          Inr (map (\<lambda>(state_id, state). (state_id, ms_fidelity state)) states)))"

subsection \<open>Runs of an interface\<close>

text \<open>
  The operations a caller can apply to an interface, and a run: the interface after a
  list of operations together with the identifiers the successful stores returned, in
  the order of return.
\<close>

datatype operation =
    Store env "real list" string "(string \<times> string) list option"
  | Retrieve string
  | Monitor

fun step :: "QuantumMemoryInterface \<times> string list \<Rightarrow> operation
               \<Rightarrow> QuantumMemoryInterface \<times> string list" where
  "step (self, ids) (Store e data scheme metadata) =
     (case store_state e self data scheme metadata of
        (self', Inr state_id) \<Rightarrow> (self', ids @ [state_id])
      | (self', Inl err) \<Rightarrow> (self', ids))"
| "step (self, ids) (Retrieve state_id) = (self, ids)"
| "step (self, ids) Monitor = (fst (monitor_state_fidelity self), ids)"

definition run :: "QuantumMemoryInterface \<Rightarrow> operation list \<Rightarrow> QuantumMemoryInterface \<times> string list" where
  "run self ops = foldl step (self, []) ops"

section \<open>\<^verbatim>\<open>encoding_methods.py\<close>\<close>

text \<open>
  An array is a list of entries; an entry is a complex number or NaN (\<open>None\<close>). Real
  arrays are arrays whose entries have no imaginary part.

  Every division of the source divides an array by its own
  \<^verbatim>\<open>np.linalg.norm\<close>; \<open>over_norm\<close> is that quotient. A NaN entry makes the norm and so
  every quotient NaN. A norm of \<open>0\<close> means every entry is \<open>0\<close>, and NumPy answers
  \<open>0 / 0\<close> with NaN and a warning, never with an exception. (In doubles the squares of
  very small entries underflow: such a vector has the computed norm \<open>0\<close> and infinite
  quotients. The theorems that speak of entries speak of the zero vector and of the test
  vector of the repository only; the others speak of lengths and errors.)
\<close>

type_synonym vec = "complex option list"

record EncodingConfig =
  cfg_method :: string
  cfg_n_qubits :: nat
  cfg_error_protection :: bool
  compression_ratio :: real
  basis_states :: "string list"

record QuantumEncoder =
  enc_n_qubits :: nat

definition superdense_config :: "QuantumEncoder \<Rightarrow> EncodingConfig" where
  "superdense_config self =
     \<lparr>cfg_method = ''superdense'', cfg_n_qubits = enc_n_qubits self div 2,
      cfg_error_protection = True, compression_ratio = 2,
      basis_states = [''00'', ''01'', ''10'', ''11'']\<rparr>"

definition configs :: "QuantumEncoder \<Rightarrow> (string \<times> EncodingConfig) list" where
  "configs self =
     [(''amplitude'',
         \<lparr>cfg_method = ''amplitude'', cfg_n_qubits = enc_n_qubits self,
          cfg_error_protection = True, compression_ratio = 1, basis_states = [''0'', ''1'']\<rparr>),
      (''phase'',
         \<lparr>cfg_method = ''phase'', cfg_n_qubits = enc_n_qubits self,
          cfg_error_protection = True, compression_ratio = 1, basis_states = [''+'', ''-'']\<rparr>),
      (''superdense'', superdense_config self)]"

subsection \<open>The NumPy operations the encoder uses\<close>

text \<open>
  \<^verbatim>\<open>np.linalg.norm(v)\<close> is the root of the sum of the squared moduli.
  \<^verbatim>\<open>np.pad(v, (0, n), 'constant')\<close> appends \<open>n\<close> zeros and raises on a negative \<open>n\<close>.
  \<^verbatim>\<open>np.repeat(v, k)\<close> repeats each entry \<open>k\<close> times in place, \<^verbatim>\<open>np.tile(v, k)\<close>
  repeats the whole array \<open>k\<close> times, and \<^verbatim>\<open>v[::k]\<close> keeps the entries at the indices
  \<open>0, k, 2k, \<dots>\<close> (the source uses the steps \<open>3\<close>, \<open>7\<close> and \<open>9\<close>). \<open>iadd a b\<close> is the in-place
  \<^verbatim>\<open>a += b\<close>: the right-hand side must have the length of \<open>a\<close> or the length one.
  \<open>np_dot a b\<close> is \<^verbatim>\<open>np.dot\<close> on two vectors: it raises unless they have the same length,
  and a NaN entry makes the product NaN. Arithmetic on entries propagates NaN
  (\<open>mul_opt\<close>, \<open>add_opt\<close>).
\<close>

definition np_linalg_norm :: "vec \<Rightarrow> real option" where
  "np_linalg_norm v =
     (if None \<in> set v then None else Some (sqrt (\<Sum>x\<leftarrow>v. (cmod (the x))\<^sup>2)))"

definition over_norm :: "vec \<Rightarrow> vec" where
  "over_norm v =
     (case np_linalg_norm v of
        None \<Rightarrow> map (\<lambda>x. None) v
      | Some r \<Rightarrow> if r = 0 then map (\<lambda>x. None) v
                  else map (map_option (\<lambda>z. z / complex_of_real r)) v)"

definition np_pad :: "vec \<Rightarrow> int \<Rightarrow> error + vec" where
  "np_pad v after =
     (if after < 0 then Inl PadNegative else Inr (v @ replicate (nat after) (Some 0)))"

definition np_repeat :: "nat \<Rightarrow> vec \<Rightarrow> vec" where
  "np_repeat k v = concat (map (replicate k) v)"

definition np_tile :: "nat \<Rightarrow> vec \<Rightarrow> vec" where
  "np_tile k v = concat (replicate k v)"

fun stride :: "nat \<Rightarrow> 'a list \<Rightarrow> 'a list" where
  "stride k [] = []"
| "stride k (x # xs) = x # stride k (drop (k - 1) xs)"

definition mul_opt :: "complex option \<Rightarrow> complex option \<Rightarrow> complex option" where
  "mul_opt x y = (case (x, y) of (Some a, Some b) \<Rightarrow> Some (a * b) | _ \<Rightarrow> None)"

definition add_opt :: "complex option \<Rightarrow> complex option \<Rightarrow> complex option" where
  "add_opt x y = (case (x, y) of (Some a, Some b) \<Rightarrow> Some (a + b) | _ \<Rightarrow> None)"

definition iadd :: "vec \<Rightarrow> vec \<Rightarrow> error + vec" where
  "iadd a b =
     (if length b = length a then Inr (map2 add_opt a b)
      else if length b = 1 then Inr (map (\<lambda>x. add_opt x (hd b)) a)
      else Inl (NotBroadcastable (length a) (length b)))"

definition np_dot :: "vec \<Rightarrow> vec \<Rightarrow> error + complex option" where
  "np_dot a b =
     (if length a \<noteq> length b then Inl (ShapesNotAligned (length a) (length b))
      else Inr (if None \<in> set a \<union> set b then None
                else Some (\<Sum>(x, y)\<leftarrow>zip a b. the x * the y)))"

subsection \<open>The encoder\<close>

text \<open>
  \<open>encode_quantum_state\<close> receives the data as finite reals and works on the array of
  these entries. The defaults of the source (\<^verbatim>\<open>method="amplitude"\<close>,
  \<^verbatim>\<open>error_protection=True\<close>) are passed explicitly. The result dictionaries of
  \<^verbatim>\<open>encode_quantum_state\<close> are records whose fields carry the prefix \<open>er_\<close>;
  \<open>encoding_kwargs\<close> is such a record as the keyword arguments \<^verbatim>\<open>**encoding_result\<close> of
  \<^verbatim>\<open>log_event\<close>. Both operations log their result before they return it.
\<close>

definition normalize_data :: "vec \<Rightarrow> vec" where
  "normalize_data data = over_norm data"

definition amplitude_encode :: "QuantumEncoder \<Rightarrow> vec \<Rightarrow> error + vec" where
  "amplitude_encode self data =
     (let n_amplitudes = (2::nat) ^ enc_n_qubits self
      in case np_pad data (int n_amplitudes - int (length data)) of
           Inl err \<Rightarrow> Inl err
         | Inr padded_data \<Rightarrow> Inr (over_norm padded_data))"

definition phase_encode :: "QuantumEncoder \<Rightarrow> vec \<Rightarrow> error + vec" where
  "phase_encode self data =
     (let phases = map (map_option (\<lambda>x. exp (2 * \<i> * complex_of_real pi * x))) data;
          n_phases = (2::nat) ^ enc_n_qubits self
      in np_pad phases (int n_phases - int (length phases)))"

definition create_bell_states :: "nat \<Rightarrow> vec list" where
  "create_bell_states n_pairs =
     (let bell_00 = map (\<lambda>a. Some (a / complex_of_real (sqrt 2))) [1, 0, 0, 1];
          bell_01 = map (\<lambda>a. Some (a / complex_of_real (sqrt 2))) [0, 1, 1, 0];
          bell_10 = map (\<lambda>a. Some (a / complex_of_real (sqrt 2))) [1, 0, 0, - 1];
          bell_11 = map (\<lambda>a. Some (a / complex_of_real (sqrt 2))) [0, 1, - 1, 0]
      in [bell_00, bell_01, bell_10, bell_11])"

fun superdense_loop :: "vec list \<Rightarrow> vec \<Rightarrow> (nat \<times> complex option) list \<Rightarrow> error + vec" where
  "superdense_loop bell_states encoded [] = Inr encoded"
| "superdense_loop bell_states encoded ((i, v) # rest) =
     (case iadd encoded (map (mul_opt v) (bell_states ! (i mod 4))) of
        Inl err \<Rightarrow> Inl err
      | Inr encoded' \<Rightarrow> superdense_loop bell_states encoded' rest)"

definition enumerate_list :: "'a list \<Rightarrow> (nat \<times> 'a) list" where
  "enumerate_list xs = zip [0..<length xs] xs"

definition superdense_encode :: "QuantumEncoder \<Rightarrow> vec \<Rightarrow> error + vec" where
  "superdense_encode self data =
     (let n_pairs = cfg_n_qubits (superdense_config self);
          bell_states = create_bell_states n_pairs;
          encoded = replicate (2 ^ (2 * n_pairs)) (Some 0)
      in case superdense_loop bell_states encoded (enumerate_list (take n_pairs data)) of
           Inl err \<Rightarrow> Inl err
         | Inr encoded' \<Rightarrow> Inr (over_norm encoded'))"

definition apply_phase_flip_code :: "vec \<Rightarrow> vec" where
  "apply_phase_flip_code state_vector = np_tile 9 state_vector"

definition remove_phase_flip_code :: "vec \<Rightarrow> vec" where
  "remove_phase_flip_code state_vector = stride 9 state_vector"

definition apply_stabilizer_code :: "vec \<Rightarrow> vec" where
  "apply_stabilizer_code state_vector = np_tile 7 state_vector"

definition remove_stabilizer_code :: "vec \<Rightarrow> vec" where
  "remove_stabilizer_code state_vector = stride 7 state_vector"

definition apply_error_protection :: "vec \<Rightarrow> string \<Rightarrow> vec" where
  "apply_error_protection state_vector method =
     (let protected =
            (if method = ''amplitude'' then np_repeat 3 state_vector
             else if method = ''phase'' then apply_phase_flip_code state_vector
             else apply_stabilizer_code state_vector)
      in over_norm protected)"

definition remove_error_protection :: "vec \<Rightarrow> string \<Rightarrow> vec" where
  "remove_error_protection state_vector method =
     (let unprotected =
            (if method = ''amplitude'' then stride 3 state_vector
             else if method = ''phase'' then remove_phase_flip_code state_vector
             else remove_stabilizer_code state_vector)
      in over_norm unprotected)"

definition calculate_encoding_fidelity :: "vec \<Rightarrow> vec \<Rightarrow> error + real option" where
  "calculate_encoding_fidelity original encoded =
     (case np_dot original (map (map_option cnj) encoded) of
        Inl err \<Rightarrow> Inl err
      | Inr d \<Rightarrow> Inr (map_option (\<lambda>z. (cmod z)\<^sup>2) d))"

record encoding_result =
  er_timestamp :: string
  er_method :: string
  er_state_vector :: vec
  er_n_qubits_used :: nat
  er_error_protected :: bool
  er_fidelity :: "real option"

definition encoding_kwargs :: "encoding_result \<Rightarrow> pydict" where
  "encoding_kwargs r =
     [(''timestamp'', Str (er_timestamp r)), (''method'', Str (er_method r)),
      (''state_vector'', NdArray (er_state_vector r)),
      (''n_qubits_used'', Num (Some (real (er_n_qubits_used r)))),
      (''error_protected'', Flag (er_error_protected r)),
      (''fidelity'', Num (er_fidelity r))]"

definition encode_quantum_state ::
  "QuantumEncoder \<Rightarrow> env \<Rightarrow> real list \<Rightarrow> string \<Rightarrow> bool \<Rightarrow> error + encoding_result" where
  "encode_quantum_state self e data method error_protection =
     (case map_of (configs self) method of
        None \<Rightarrow> Inl (UnknownEncodingMethod method)
      | Some config \<Rightarrow>
          (let normalized_data = normalize_data (map (\<lambda>x. Some (complex_of_real x)) data)
           in case (if method = ''amplitude'' then amplitude_encode self normalized_data
                    else if method = ''phase'' then phase_encode self normalized_data
                    else if method = ''superdense'' then superdense_encode self normalized_data
                    else Inl UnboundLocal) of
                Inl err \<Rightarrow> Inl err
              | Inr encoded_state \<Rightarrow>
                  (let encoded_state =
                         (if error_protection \<and> cfg_error_protection config
                          then apply_error_protection encoded_state method
                          else encoded_state)
                   in case calculate_encoding_fidelity normalized_data encoded_state of
                        Inl err \<Rightarrow> Inl err
                      | Inr fidelity \<Rightarrow>
                          (let encoding_result =
                                 \<lparr>er_timestamp = now e 0, er_method = method,
                                  er_state_vector = encoded_state,
                                  er_n_qubits_used = length encoded_state,
                                  er_error_protected = error_protection,
                                  er_fidelity = fidelity\<rparr>
                           in case log_event ''quantum'' ''INFO'' ''Quantum state encoded''
                                     (encoding_kwargs encoding_result) of
                                Inl err \<Rightarrow> Inl err
                              | Inr logged \<Rightarrow> Inr encoding_result))))"

definition amplitude_decode :: "vec \<Rightarrow> real option list" where
  "amplitude_decode state_vector =
     map (map_option Re) (filter (\<lambda>x. x \<noteq> Some 0) state_vector)"

definition phase_decode :: "vec \<Rightarrow> real option list" where
  "phase_decode state_vector =
     (let phases = filter (\<lambda>x. x \<noteq> Some 0) state_vector
      in map (map_option (\<lambda>z. Arg z / (2 * pi))) phases)"

fun projections :: "vec \<Rightarrow> vec list \<Rightarrow> error + real option list" where
  "projections state_vector [] = Inr []"
| "projections state_vector (bell_state # rest) =
     (case np_dot state_vector bell_state of
        Inl err \<Rightarrow> Inl err
      | Inr d \<Rightarrow>
          (case projections state_vector rest of
             Inl err \<Rightarrow> Inl err
           | Inr decoded \<Rightarrow> Inr (map_option cmod d # decoded)))"

definition superdense_decode :: "QuantumEncoder \<Rightarrow> vec \<Rightarrow> error + real option list" where
  "superdense_decode self state_vector =
     (let bell_states = create_bell_states (cfg_n_qubits (superdense_config self))
      in projections state_vector bell_states)"

definition decode_quantum_state ::
  "QuantumEncoder \<Rightarrow> env \<Rightarrow> encoding_result \<Rightarrow> error + real option list" where
  "decode_quantum_state self e encoded_state =
     (let method = er_method encoded_state;
          state_vector = er_state_vector encoded_state;
          state_vector =
            (if er_error_protected encoded_state
             then remove_error_protection state_vector method
             else state_vector)
      in case (if method = ''amplitude'' then Inr (amplitude_decode state_vector)
               else if method = ''phase'' then Inr (phase_decode state_vector)
               else if method = ''superdense'' then superdense_decode self state_vector
               else Inl UnboundLocal) of
           Inl err \<Rightarrow> Inl err
         | Inr decoded_data \<Rightarrow>
             (case log_event ''quantum'' ''INFO'' ''Quantum state decoded''
                     [(''timestamp'', Str (now e 0)), (''method'', Str method),
                      (''fidelity'', Num (er_fidelity encoded_state))] of
                Inl err \<Rightarrow> Inl err
              | Inr logged \<Rightarrow> Inr decoded_data))"

definition round_trip ::
  "QuantumEncoder \<Rightarrow> env \<Rightarrow> real list \<Rightarrow> string \<Rightarrow> bool \<Rightarrow> error + real option list" where
  "round_trip self e data method error_protection =
     (case encode_quantum_state self e data method error_protection of
        Inl err \<Rightarrow> Inl err
      | Inr encoded_state \<Rightarrow> decode_quantum_state self (later 1 e) encoded_state)"

section \<open>Concrete inputs\<close>

text \<open>
  A clock that always answers the same second, an interface over a manager of capacity
  two, the two states that storing a three-element vector twice puts into it, and the
  encoder and the data vector of \<^verbatim>\<open>tests/quantum/test_encoding_methods.py\<close>.
\<close>

definition clock0 :: env where
  "clock0 = \<lparr>now = (\<lambda>k. ''UTC - 2025-05-31 17:38:57''), addr = 0\<rparr>"

definition qmi2 :: QuantumMemoryInterface where
  "qmi2 = new_interface \<lparr>n_qubits = 2\<rparr> \<lparr>ems_circuit_manager = \<lparr>n_qubits = 2\<rparr>\<rparr>"

definition state0 :: MemoryState where
  "state0 = \<lparr>ms_id = ''state_UTC - 2025-05-31 17:38:57_0'', ms_qubits = [0, 1],
           ms_encoding = ''direct'', ms_fidelity = 1,
           ms_timestamp = ''UTC - 2025-05-31 17:38:57'', ms_metadata = []\<rparr>"

definition state1 :: MemoryState where
  "state1 = \<lparr>ms_id = ''state_UTC - 2025-05-31 17:38:57_1'', ms_qubits = [0, 1],
           ms_encoding = ''direct'', ms_fidelity = 1,
           ms_timestamp = ''UTC - 2025-05-31 17:38:57'', ms_metadata = []\<rparr>"

definition encoder4 :: QuantumEncoder where
  "encoder4 = \<lparr>enc_n_qubits = 4\<rparr>"

definition test_data :: "real list" where
  "test_data = [1 / 10, 2 / 10, 3 / 10, 4 / 10]"

definition encoder1 :: QuantumEncoder where
  "encoder1 = \<lparr>enc_n_qubits = 1\<rparr>"

section \<open>Vocabulary of the proofs\<close>

text \<open>
  The specification's decay law, in its words: the new fidelity is the old one times
  \<open>exp (-0.1 \<times> \<Delta>t)\<close>, for an elapsed time \<open>\<Delta>t\<close>.
\<close>

definition spec_fidelity_new :: "real \<Rightarrow> real \<Rightarrow> real" where
  "spec_fidelity_new fidelity_old dt = fidelity_old * exp (- (1 / 10) * dt)"

text \<open>The state that a successful \<open>store_state\<close> persists.\<close>

definition stored :: "env \<Rightarrow> QuantumMemoryInterface \<Rightarrow> real list \<Rightarrow> string \<Rightarrow> (string \<times> string) list option \<Rightarrow> MemoryState" where
  "stored e self data scheme metadata =
     \<lparr>ms_id = generate_state_id self (now e 0),
      ms_qubits = [0..<min (length data) (n_qubits (circuit_manager self))],
      ms_encoding = scheme, ms_fidelity = 1, ms_timestamp = now e 1,
      ms_metadata = (case metadata of None \<Rightarrow> [] | Some m \<Rightarrow> m)\<rparr>"

text \<open>
  The invariant of a run: the \<open>i\<close>-th identifier returned ends in the decimal numeral
  of \<open>i\<close>; the keys of the dictionary are the identifiers returned, in order; every stored
  fidelity is positive and at most one.
\<close>

definition ids_ok :: "string list \<Rightarrow> bool" where
  "ids_ok ks = (\<forall>i < length ks. \<exists>ts. ks ! i = ''state_'' @ ts @ ''_'' @ str_nat i)"

definition run_inv :: "QuantumMemoryInterface \<times> string list \<Rightarrow> bool" where
  "run_inv p = (map fst (memory_states (fst p)) = snd p \<and> ids_ok (snd p) \<and>
            (\<forall>s \<in> snd ` set (memory_states (fst p)). 0 < ms_fidelity s \<and> ms_fidelity s \<le> 1))"

section \<open>Decimal numerals and state identifiers\<close>

lemma digit_char_inj: "a < 10 \<Longrightarrow> b < 10 \<Longrightarrow> digit_char a = digit_char b \<Longrightarrow> a = b"
proof -
  assume a: "a < 10" and b: "b < 10" and eq: "digit_char a = digit_char b"
  have d: "distinct ''0123456789''" by simp
  have l: "length ''0123456789'' = 10" by simp
  from eq have "''0123456789'' ! a = ''0123456789'' ! b" by (simp only: digit_char_def)
  with d a b l show "a = b" by (metis nth_eq_iff_index_eq)
qed

lemma digit_char_set: "d < 10 \<Longrightarrow> digit_char d \<in> set ''0123456789''"
  unfolding digit_char_def by (rule nth_mem) simp

lemma digit_char_not_underscore: "d < 10 \<Longrightarrow> digit_char d \<noteq> CHR ''_''"
  using digit_char_set [of d] by auto

lemma str_nat_not_Nil: "str_nat n \<noteq> []"
  by (subst str_nat.simps) simp

lemma str_nat_no_underscore: "CHR ''_'' \<notin> set (str_nat n)"
proof (induction n rule: str_nat.induct)
  case (1 n)
  show ?case
  proof (cases "n < 10")
    case True
    then show ?thesis
      using digit_char_not_underscore [of n] by (subst str_nat.simps) auto
  next
    case False
    have "n mod 10 < 10" by simp
    with False 1 show ?thesis
      using digit_char_not_underscore [of "n mod 10"] by (subst str_nat.simps) auto
  qed
qed

lemma str_nat_inj: "str_nat m = str_nat n \<Longrightarrow> m = n"
proof (induction m arbitrary: n rule: str_nat.induct)
  case (1 m)
  show ?case
  proof (cases "m < 10")
    case m: True
    show ?thesis
    proof (cases "n < 10")
      case True
      with m "1.prems" show ?thesis
        by (simp add: str_nat.simps [of m] str_nat.simps [of n] digit_char_inj)
    next
      case False
      with m "1.prems" show ?thesis
        using str_nat_not_Nil [of "n div 10"]
        by (simp add: str_nat.simps [of m] str_nat.simps [of n])
    qed
  next
    case m: False
    show ?thesis
    proof (cases "n < 10")
      case True
      with m "1.prems" show ?thesis
        using str_nat_not_Nil [of "m div 10"]
        by (simp add: str_nat.simps [of m] str_nat.simps [of n])
    next
      case False
      with m "1.prems" have eq: "str_nat (m div 10) = str_nat (n div 10)"
        and d: "digit_char (m mod 10) = digit_char (n mod 10)"
        by (simp_all add: str_nat.simps [of m] str_nat.simps [of n])
      from "1.IH" [OF m eq] have "m div 10 = n div 10" .
      moreover from d have "m mod 10 = n mod 10" by (intro digit_char_inj) simp_all
      ultimately show ?thesis by (metis div_mult_mod_eq)
    qed
  qed
qed

lemma suffix_after_last:
  assumes "xs @ c # ds = ys @ c # es" and "c \<notin> set ds" and "c \<notin> set es"
  shows "ds = es"
proof -
  have "takeWhile (\<lambda>x. x \<noteq> c) (rev (xs @ c # ds)) = rev ds"
    using assms(2) by (auto simp add: takeWhile_tail)
  moreover have "takeWhile (\<lambda>x. x \<noteq> c) (rev (ys @ c # es)) = rev es"
    using assms(3) by (auto simp add: takeWhile_tail)
  ultimately show ?thesis using assms(1) by (metis rev_is_rev_conv)
qed

lemma state_id_inj:
  assumes "''state_'' @ s @ ''_'' @ str_nat m = ''state_'' @ t @ ''_'' @ str_nat n"
  shows "m = n"
proof -
  from assms have "s @ CHR ''_'' # str_nat m = t @ CHR ''_'' # str_nat n" by simp
  then have "str_nat m = str_nat n"
    by (rule suffix_after_last) (rule str_nat_no_underscore)+
  then show ?thesis by (rule str_nat_inj)
qed

lemma str_nat_0: "str_nat 0 = ''0''" by (simp add: str_nat.simps digit_char_def)

lemma str_nat_Suc_0: "str_nat (Suc 0) = ''1''"
  by (simp add: str_nat.simps digit_char_def)

section \<open>Storing\<close>

lemma take_upt_min: "take k [0..<n] = [0..<min k n]"
  by (cases "k \<le> n") (simp_all add: min_def)

lemma map_of_encoding_schemes:
  "map_of encoding_schemes s =
     (if s = ''direct'' then Some direct_encoding
      else if s = ''compressed'' then Some compressed_encoding
      else if s = ''error_protected'' then Some error_protected_encoding
      else None)"
  by (simp add: encoding_schemes_def)

lemma scheme_is_identity:
  "map_of encoding_schemes s = Some f \<Longrightarrow> f data = data"
  by (auto simp: map_of_encoding_schemes direct_encoding_def compressed_encoding_def
      error_protected_encoding_def split: if_splits)

lemma store_state_known:
  assumes "map_of encoding_schemes scheme = Some f"
  shows "store_state e self data scheme metadata =
           (self\<lparr>memory_states :=
                   AList.update (generate_state_id self (now e 0))
                     (stored e self data scheme metadata) (memory_states self)\<rparr>,
            Inr (generate_state_id self (now e 0)))"
  using assms scheme_is_identity [OF assms, of data]
  by (simp add: store_state_def apply_error_mitigation_def allocate_qubits_def take_upt_min
      stored_def Let_def)

lemma store_state_unknown:
  assumes "map_of encoding_schemes scheme = None"
  shows "store_state e self data scheme metadata = (self, Inl (UnknownEncodingScheme scheme))"
  using assms by (simp add: store_state_def Let_def)

lemma ids_ok_fresh:
  assumes "ids_ok ks"
  shows "''state_'' @ ts @ ''_'' @ str_nat (length ks) \<notin> set ks"
proof
  assume "''state_'' @ ts @ ''_'' @ str_nat (length ks) \<in> set ks"
  then obtain i where i: "i < length ks" and eq: "ks ! i = ''state_'' @ ts @ ''_'' @ str_nat (length ks)"
    by (auto simp: in_set_conv_nth)
  from assms i obtain ts' where "ks ! i = ''state_'' @ ts' @ ''_'' @ str_nat i"
    by (auto simp: ids_ok_def)
  with eq have "''state_'' @ ts' @ ''_'' @ str_nat i = ''state_'' @ ts @ ''_'' @ str_nat (length ks)"
    by simp
  then have "i = length ks" by (rule state_id_inj)
  with i show False by simp
qed

lemma ids_ok_snoc:
  assumes "ids_ok ks"
  shows "ids_ok (ks @ [''state_'' @ ts @ ''_'' @ str_nat (length ks)])"
  unfolding ids_ok_def
proof (intro allI impI)
  fix i assume "i < length (ks @ [''state_'' @ ts @ ''_'' @ str_nat (length ks)])"
  then consider "i < length ks" | "i = length ks" by fastforce
  then show "\<exists>t. (ks @ [''state_'' @ ts @ ''_'' @ str_nat (length ks)]) ! i = ''state_'' @ t @ ''_'' @ str_nat i"
  proof cases
    case 1
    with assms show ?thesis by (auto simp: ids_ok_def nth_append)
  next
    case 2
    then show ?thesis by (auto simp: nth_append)
  qed
qed

lemma ids_ok_distinct:
  assumes "ids_ok ks"
  shows "distinct ks"
  unfolding distinct_conv_nth
proof (intro allI impI)
  fix i j assume i: "i < length ks" and j: "j < length ks" and ne: "i \<noteq> j"
  from assms i obtain s where s: "ks ! i = ''state_'' @ s @ ''_'' @ str_nat i"
    by (auto simp: ids_ok_def)
  from assms j obtain t where t: "ks ! j = ''state_'' @ t @ ''_'' @ str_nat j"
    by (auto simp: ids_ok_def)
  show "ks ! i \<noteq> ks ! j"
  proof
    assume "ks ! i = ks ! j"
    with s t have "''state_'' @ s @ ''_'' @ str_nat i = ''state_'' @ t @ ''_'' @ str_nat j" by simp
    then have "i = j" by (rule state_id_inj)
    with ne show False by simp
  qed
qed

lemma update_fresh: "k \<notin> fst ` set ps \<Longrightarrow> AList.update k v ps = ps @ [(k, v)]"
  by (induction ps) auto

lemma store_state_fresh:
  assumes ok: "ids_ok (map fst (memory_states self))"
    and known: "map_of encoding_schemes scheme = Some f"
  shows "store_state e self data scheme metadata =
           (self\<lparr>memory_states := memory_states self @
                   [(generate_state_id self (now e 0), stored e self data scheme metadata)]\<rparr>,
            Inr (generate_state_id self (now e 0)))"
proof -
  have "generate_state_id self (now e 0) \<notin> fst ` set (memory_states self)"
    using ids_ok_fresh [OF ok, of "now e 0"] by (simp add: generate_state_id_def)
  then show ?thesis
    by (simp add: store_state_known [OF known] update_fresh)
qed

lemma inv_store:
  assumes "run_inv (self, ids)"
  shows "run_inv (step (self, ids) (Store e data scheme metadata))"
proof (cases "map_of encoding_schemes scheme")
  case None
  with assms show ?thesis by (simp add: store_state_unknown)
next
  case (Some f)
  from assms have ok: "ids_ok (map fst (memory_states self))" and ids: "map fst (memory_states self) = ids"
    by (simp_all add: run_inv_def)
  have len: "length (memory_states self) = length ids" using ids by (metis length_map)
  show ?thesis
    using assms ids_ok_snoc [of ids "now e 0"]
    by (auto simp: store_state_fresh [OF ok Some] run_inv_def generate_state_id_def len stored_def)
qed

lemma exp_decay_bounds: "0 < exp (- (1 / 10) * (1 / 10 :: real))" "exp (- (1 / 10) * (1 / 10 :: real)) < 1"
  by simp_all

lemma decay_fidelity: "ms_fidelity (decay s) = ms_fidelity s * exp (- (1 / 10) * (1 / 10))"
  by (simp add: decay_def calculate_storage_time_def)

lemma inv_monitor:
  assumes "run_inv (self, ids)"
  shows "run_inv (step (self, ids) Monitor)"
proof -
  have "0 < ms_fidelity (decay s) \<and> ms_fidelity (decay s) \<le> 1"
    if "0 < ms_fidelity s" "ms_fidelity s \<le> 1" for s
  proof -
    have "ms_fidelity s * exp (- (1 / 10) * (1 / 10)) \<le> 1 * 1"
      using that by (intro mult_mono) simp_all
    with that show ?thesis by (simp add: decay_fidelity)
  qed
  with assms show ?thesis
    by (force simp: run_inv_def monitor_state_fidelity_def Let_def comp_def case_prod_unfold)
qed

lemma inv_step:
  assumes "run_inv p"
  shows "run_inv (step p op)"
proof -
  obtain self ids where p: "p = (self, ids)" by (cases p)
  show ?thesis
  proof (cases op)
    case (Store e data scheme metadata)
    with assms p show ?thesis using inv_store by simp
  next
    case (Retrieve state_id)
    with assms p show ?thesis by simp
  next
    case Monitor
    with assms p show ?thesis using inv_monitor by simp
  qed
qed

lemma inv_run: "run_inv (run (new_interface cm ems) ops)"
  unfolding run_def
proof (induction ops rule: rev_induct)
  case Nil
  show ?case by (simp add: run_inv_def new_interface_def ids_ok_def)
next
  case (snoc op ops)
  then show ?case by (simp add: inv_step)
qed

subsection \<open>The concrete run\<close>

lemma sid0: "generate_state_id qmi2 ts = ''state_'' @ ts @ ''_0''"
  by (simp add: generate_state_id_def qmi2_def new_interface_def str_nat_0)

lemma now_clock0: "now clock0 k = ''UTC - 2025-05-31 17:38:57''"
  by (simp add: clock0_def)

lemma direct_known: "map_of encoding_schemes ''direct'' = Some direct_encoding"
  by (simp add: map_of_encoding_schemes)

lemma qmi2_fields: "memory_states qmi2 = []" "n_qubits (circuit_manager qmi2) = 2"
  by (simp_all add: qmi2_def new_interface_def)

lemma upt_0_2: "[0..<2] = [0, 1]"
  by (simp add: upt_rec)

lemma store_qmi2:
  "store_state clock0 qmi2 [1, 2, 3] ''direct'' None =
     (qmi2\<lparr>memory_states := [(''state_UTC - 2025-05-31 17:38:57_0'', state0)]\<rparr>,
      Inr ''state_UTC - 2025-05-31 17:38:57_0'')"
  by (simp add: store_state_known [OF direct_known] sid0 stored_def qmi2_fields upt_0_2
      now_clock0 state0_def)

lemma store_qmi2_again:
  "store_state clock0 (qmi2\<lparr>memory_states := [(''state_UTC - 2025-05-31 17:38:57_0'', state0)]\<rparr>)
       [1, 2, 3] ''direct'' None =
     (qmi2\<lparr>memory_states := [(''state_UTC - 2025-05-31 17:38:57_0'', state0),
                              (''state_UTC - 2025-05-31 17:38:57_1'', state1)]\<rparr>,
      Inr ''state_UTC - 2025-05-31 17:38:57_1'')"
  by (simp add: store_state_known [OF direct_known] generate_state_id_def str_nat_Suc_0 stored_def
      qmi2_fields upt_0_2 now_clock0 state1_def)

lemma run_store_monitor:
  "run qmi2 [Store clock0 [1, 2, 3] ''direct'' None, Monitor] =
     (qmi2\<lparr>memory_states :=
        [(''state_UTC - 2025-05-31 17:38:57_0'',
          state0\<lparr>ms_fidelity := exp (- (1 / 10) * (1 / 10))\<rparr>)]\<rparr>,
      [''state_UTC - 2025-05-31 17:38:57_0''])"
  by (simp add: run_def store_qmi2 monitor_state_fidelity_def decay_def
      calculate_storage_time_def state0_def)




text \<open>
  Claim C2. After any sequence of operations on a new interface, every stored state has
  a fidelity between \<open>0\<close> and \<open>1\<close>; and the state a successful \<open>store_state\<close>
  persists has fidelity \<open>1\<close>.
\<close>

theorem fidelity_in_unit_interval:
  "(\<forall>s \<in> snd ` set (memory_states (fst (run (new_interface cm ems) ops))).
      0 \<le> ms_fidelity s \<and> ms_fidelity s \<le> 1) \<and>
   (scheme \<in> set (map fst encoding_schemes) \<longrightarrow>
      map_option ms_fidelity
        (map_of (memory_states (fst (store_state e self data scheme metadata)))
           (generate_state_id self (now e 0))) = Some 1)"
proof
  have "run_inv (run (new_interface cm ems) ops)" by (rule inv_run)
  then show "\<forall>s \<in> snd ` set (memory_states (fst (run (new_interface cm ems) ops))).
      0 \<le> ms_fidelity s \<and> ms_fidelity s \<le> 1"
    unfolding run_inv_def by fastforce
next
  show "scheme \<in> set (map fst encoding_schemes) \<longrightarrow>
      map_option ms_fidelity
        (map_of (memory_states (fst (store_state e self data scheme metadata)))
           (generate_state_id self (now e 0))) = Some 1"
  proof
    assume "scheme \<in> set (map fst encoding_schemes)"
    then obtain f where "map_of encoding_schemes scheme = Some f"
      by (auto simp: map_of_encoding_schemes encoding_schemes_def)
    then show "map_option ms_fidelity
        (map_of (memory_states (fst (store_state e self data scheme metadata)))
           (generate_state_id self (now e 0))) = Some 1"
      by (simp add: store_state_known update_conv' stored_def)
  qed
qed

text \<open>
  The theorem on the run that stores one vector and then monitors once.
\<close>

theorem fidelity_in_unit_interval_witness:
  "memory_states (fst (run qmi2 [Store clock0 [1, 2, 3] ''direct'' None, Monitor])) =
     [(''state_UTC - 2025-05-31 17:38:57_0'',
       state0\<lparr>ms_fidelity := exp (- (1 / 10) * (1 / 10))\<rparr>)] \<and>
   0 \<le> exp (- (1 / 10) * (1 / 10) :: real) \<and> exp (- (1 / 10) * (1 / 10) :: real) \<le> 1 \<and>
   ''direct'' \<in> set (map fst encoding_schemes) \<and>
   map_option ms_fidelity
     (map_of (memory_states (fst (store_state clock0 qmi2 [1, 2, 3] ''direct'' None)))
        (generate_state_id qmi2 (now clock0 0))) = Some 1"
proof -
  have h: "''direct'' \<in> set (map fst encoding_schemes)" by (simp add: encoding_schemes_def)
  note t = fidelity_in_unit_interval
    [of "\<lparr>n_qubits = 2\<rparr>" "\<lparr>ems_circuit_manager = \<lparr>n_qubits = 2\<rparr>\<rparr>"
        "[Store clock0 [1, 2, 3] ''direct'' None, Monitor]" "''direct''" clock0 qmi2
        "[1, 2, 3]" None, folded qmi2_def]
  from t h show ?thesis
    by (simp add: run_store_monitor)
qed

text \<open>
  The stored qubit list of a state and the circuit manager are not changed by any later
  operation: a later store writes under a new key, and monitoring changes fidelities
  only.
\<close>

lemma circuit_manager_step: "circuit_manager (fst (step p op)) = circuit_manager (fst p)"
proof -
  obtain self ids where p: "p = (self, ids)" by (cases p)
  show ?thesis
  proof (cases op)
    case (Store e data scheme metadata)
    show ?thesis
    proof (cases "map_of encoding_schemes scheme")
      case None
      with p Store show ?thesis by (simp add: store_state_unknown)
    next
      case (Some f)
      with p Store show ?thesis by (simp add: store_state_known)
    qed
  next
    case (Retrieve state_id)
    with p show ?thesis by simp
  next
    case Monitor
    with p show ?thesis by (simp add: monitor_state_fidelity_def Let_def)
  qed
qed

lemma circuit_manager_foldl:
  "circuit_manager (fst (foldl step p ops)) = circuit_manager (fst p)"
  by (induction ops arbitrary: p) (simp_all add: circuit_manager_step)

lemma map_of_decay:
  "map_of (map (\<lambda>(state_id, state). (state_id, decay state)) ms) k = map_option decay (map_of ms k)"
  by (induction ms) auto

lemma qubits_step:
  assumes inv: "run_inv p"
    and held: "map_option ms_qubits (map_of (memory_states (fst p)) k) = Some q"
  shows "map_option ms_qubits (map_of (memory_states (fst (step p op))) k) = Some q"
proof -
  obtain self ids where p: "p = (self, ids)" by (cases p)
  show ?thesis
  proof (cases op)
    case (Store e data scheme metadata)
    show ?thesis
    proof (cases "map_of encoding_schemes scheme")
      case None
      with p Store held show ?thesis by (simp add: store_state_unknown)
    next
      case (Some f)
      from inv p have ok: "ids_ok (map fst (memory_states self))" by (simp add: run_inv_def)
      from held p obtain ms where "map_of (memory_states self) k = Some ms" by auto
      then have "map_of (memory_states self @ [(generate_state_id self (now e 0),
                   stored e self data scheme metadata)]) k = map_of (memory_states self) k"
        by (simp add: map_add_def)
      with p Store held show ?thesis by (simp add: store_state_fresh [OF ok Some])
    qed
  next
    case (Retrieve state_id)
    with p held show ?thesis by simp
  next
    case Monitor
    have "ms_qubits (decay s) = ms_qubits s" for s by (simp add: decay_def Let_def)
    with p Monitor held show ?thesis
      by (auto simp: monitor_state_fidelity_def Let_def map_of_decay)
  qed
qed

lemma qubits_foldl:
  assumes "run_inv p"
    and "map_option ms_qubits (map_of (memory_states (fst p)) k) = Some q"
  shows "map_option ms_qubits (map_of (memory_states (fst (foldl step p ops))) k) = Some q"
  using assms
proof (induction ops arbitrary: p)
  case Nil
  then show ?case by simp
next
  case (Cons op ops)
  have "run_inv (step p op)" using Cons.prems(1) by (rule inv_step)
  moreover have "map_option ms_qubits (map_of (memory_states (fst (step p op))) k) = Some q"
    using Cons.prems by (rule qubits_step)
  ultimately show ?case using Cons.IH by simp
qed

text \<open>
  Claim C3, as the code has it. A memory state does not hold the stored data, and
  \<open>decode_state\<close> is a placeholder. For every state that \<open>store_state\<close> has persisted
  under a registered scheme, at any point of a run and after any later operations,
  \<open>retrieve_state\<close> succeeds and returns a vector of zeros, one for each allocated
  qubit: \<open>min K N\<close> zeros, where \<open>K\<close> is the length of the stored data and \<open>N\<close> the qubit
  capacity, whichever scheme was chosen.
\<close>

theorem retrieve_returns_zeros:
  assumes "scheme \<in> set (map fst encoding_schemes)"
    and "store_state e (fst (run (new_interface cm ems) ops1)) data scheme metadata
           = (self', Inr state_id)"
  shows "retrieve_state
           (fst (run (new_interface cm ems) (ops1 @ Store e data scheme metadata # ops2)))
           state_id
         = Inr (replicate (min (length data) (n_qubits cm)) 0)"
proof -
  define p1 where "p1 = run (new_interface cm ems) ops1"
  define p2 where "p2 = step p1 (Store e data scheme metadata)"
  from assms(1) obtain f where f: "map_of encoding_schemes scheme = Some f"
    by (auto simp: map_of_encoding_schemes encoding_schemes_def)
  have inv1: "run_inv p1" unfolding p1_def by (rule inv_run)
  then have inv2: "run_inv p2" unfolding p2_def by (rule inv_step)
  have cm1: "circuit_manager (fst p1) = cm"
    unfolding p1_def run_def by (simp add: circuit_manager_foldl new_interface_def)
  from assms(2) have sid: "state_id = generate_state_id (fst p1) (now e 0)"
    by (auto simp: store_state_known [OF f] p1_def)
  have "fst p2 = fst (store_state e (fst p1) data scheme metadata)"
    unfolding p2_def by (cases p1) (simp add: store_state_known [OF f])
  then have "map_option ms_qubits (map_of (memory_states (fst p2)) state_id)
               = Some [0..<min (length data) (n_qubits cm)]"
    by (simp add: store_state_known [OF f] sid update_conv' stored_def cm1)
  with inv2 have "map_option ms_qubits
                    (map_of (memory_states (fst (foldl step p2 ops2))) state_id)
                  = Some [0..<min (length data) (n_qubits cm)]"
    by (rule qubits_foldl)
  moreover have "run (new_interface cm ems) (ops1 @ Store e data scheme metadata # ops2)
                   = foldl step p2 ops2"
    by (simp add: run_def p1_def p2_def)
  ultimately show ?thesis
    by (auto simp: retrieve_state_def decode_state_def split: option.splits)
qed

text \<open>
  The theorem at capacity two: a vector of three elements is stored, the fidelities are
  monitored, and the state is retrieved.
\<close>

theorem retrieve_returns_zeros_witness:
  "''direct'' \<in> set (map fst encoding_schemes) \<and>
   retrieve_state (fst (run qmi2 [Store clock0 [1, 2, 3] ''direct'' None, Monitor]))
     ''state_UTC - 2025-05-31 17:38:57_0'' = Inr [0, 0]"
proof -
  have h: "''direct'' \<in> set (map fst encoding_schemes)" by (simp add: encoding_schemes_def)
  have r: "replicate 2 (0::real) = [0, 0]" by (simp add: numeral_2_eq_2)
  have s: "store_state clock0
             (fst (run (new_interface \<lparr>n_qubits = 2\<rparr> \<lparr>ems_circuit_manager = \<lparr>n_qubits = 2\<rparr>\<rparr>) []))
             [1, 2, 3] ''direct'' None
           = (qmi2\<lparr>memory_states := [(''state_UTC - 2025-05-31 17:38:57_0'', state0)]\<rparr>,
              Inr ''state_UTC - 2025-05-31 17:38:57_0'')"
    by (simp add: run_def qmi2_def [symmetric] store_qmi2)
  show ?thesis
    using h retrieve_returns_zeros [OF h s, of "[Monitor]", folded qmi2_def]
    by (simp add: r)
qed

text \<open>
  The claim as first stated asks for the stored vector back under the scheme
  \<^verbatim>\<open>direct\<close>. Storing \<open>[1, 2]\<close> and retrieving it gives \<open>[0, 0]\<close>.
\<close>

theorem retrieve_direct_counterexample:
  "store_state clock0 qmi2 [1, 2] ''direct'' None =
     (qmi2\<lparr>memory_states :=
        [(''state_UTC - 2025-05-31 17:38:57_0'',
          \<lparr>ms_id = ''state_UTC - 2025-05-31 17:38:57_0'', ms_qubits = [0, 1],
           ms_encoding = ''direct'', ms_fidelity = 1,
           ms_timestamp = ''UTC - 2025-05-31 17:38:57'', ms_metadata = []\<rparr>)]\<rparr>,
      Inr ''state_UTC - 2025-05-31 17:38:57_0'') \<and>
   retrieve_state (fst (store_state clock0 qmi2 [1, 2] ''direct'' None))
       ''state_UTC - 2025-05-31 17:38:57_0'' = Inr [0, 0] \<and>
   retrieve_state (fst (store_state clock0 qmi2 [1, 2] ''direct'' None))
       ''state_UTC - 2025-05-31 17:38:57_0'' \<noteq> Inr [1, 2]"
proof -
  have k: "map_of encoding_schemes ''direct'' = Some direct_encoding"
    by (simp add: map_of_encoding_schemes)
  have m: "memory_states qmi2 = []" "n_qubits (circuit_manager qmi2) = 2"
    by (simp_all add: qmi2_def new_interface_def)
  have u: "[0..<2] = [0, 1]" by (simp add: upt_rec)
  have c: "now clock0 k = ''UTC - 2025-05-31 17:38:57''" for k by (simp add: clock0_def)
  have r: "replicate 2 (0::real) = [0, 0]" by (simp add: numeral_2_eq_2)
  have s: "store_state clock0 qmi2 [1, 2] ''direct'' None =
     (qmi2\<lparr>memory_states :=
        [(''state_UTC - 2025-05-31 17:38:57_0'',
          \<lparr>ms_id = ''state_UTC - 2025-05-31 17:38:57_0'', ms_qubits = [0, 1],
           ms_encoding = ''direct'', ms_fidelity = 1,
           ms_timestamp = ''UTC - 2025-05-31 17:38:57'', ms_metadata = []\<rparr>)]\<rparr>,
      Inr ''state_UTC - 2025-05-31 17:38:57_0'')"
    by (simp add: store_state_known [OF k] sid0 stored_def m u c)
  show ?thesis
    unfolding s by (simp add: retrieve_state_def decode_state_def r)
qed

text \<open>
  Claim C4, as the code has it. \<open>calculate_storage_time\<close> ignores the stored timestamp
  and answers the constant \<open>0.1\<close>, and \<open>monitor_state_fidelity\<close> never asks for the time.
  So each call keeps the keys, multiplies the fidelity of every stored state by the
  constant \<open>exp (-0.1 \<times> 0.1)\<close>, whatever time has passed, and returns these products; no
  fidelity increases.
\<close>

theorem monitor_constant_decay:
  "map fst (memory_states (fst (monitor_state_fidelity (fst (run (new_interface cm ems) ops)))))
     = map fst (memory_states (fst (run (new_interface cm ems) ops))) \<and>
   list_all2 (\<lambda>new old. ms_fidelity new = ms_fidelity old * exp (- (1 / 10) * (1 / 10)) \<and>
                         ms_fidelity new \<le> ms_fidelity old)
     (map snd (memory_states (fst (monitor_state_fidelity (fst (run (new_interface cm ems) ops))))))
     (map snd (memory_states (fst (run (new_interface cm ems) ops)))) \<and>
   snd (monitor_state_fidelity (fst (run (new_interface cm ems) ops)))
     = Inr (map (\<lambda>(state_id, state). (state_id, ms_fidelity state * exp (- (1 / 10) * (1 / 10))))
             (memory_states (fst (run (new_interface cm ems) ops))))"
proof -
  define self where "self = fst (run (new_interface cm ems) ops)"
  have "run_inv (run (new_interface cm ems) ops)" by (rule inv_run)
  then have pos: "\<forall>s \<in> snd ` set (memory_states self). 0 < ms_fidelity s"
    unfolding run_inv_def self_def by fastforce
  have le: "ms_fidelity (decay s) \<le> ms_fidelity s" if "0 < ms_fidelity s" for s
  proof -
    have "ms_fidelity s * exp (- (1 / 10) * (1 / 10)) \<le> ms_fidelity s * 1"
      using that by (intro mult_left_mono) simp_all
    then show ?thesis by (simp add: decay_fidelity)
  qed
  have 1: "map fst (memory_states (fst (monitor_state_fidelity self))) = map fst (memory_states self)"
    by (simp add: monitor_state_fidelity_def Let_def comp_def case_prod_unfold)
  have 2: "list_all2 (\<lambda>new old. ms_fidelity new = ms_fidelity old * exp (- (1 / 10) * (1 / 10)) \<and>
                         ms_fidelity new \<le> ms_fidelity old)
     (map snd (memory_states (fst (monitor_state_fidelity self)))) (map snd (memory_states self))"
    using pos le
    by (auto simp: monitor_state_fidelity_def Let_def list_all2_map1 list_all2_map2
        case_prod_unfold decay_fidelity intro!: list_all2_same [THEN iffD2])
  have 3: "snd (monitor_state_fidelity self)
     = Inr (map (\<lambda>(state_id, state). (state_id, ms_fidelity state * exp (- (1 / 10) * (1 / 10))))
             (memory_states self))"
    by (simp add: monitor_state_fidelity_def Let_def comp_def case_prod_unfold decay_fidelity)
  from 1 2 3 show ?thesis unfolding self_def by blast
qed

text \<open>
  The theorem on the run that stores one vector, at its first monitoring.
\<close>

theorem monitor_constant_decay_witness:
  "snd (monitor_state_fidelity (fst (run qmi2 [Store clock0 [1, 2, 3] ''direct'' None])))
     = Inr [(''state_UTC - 2025-05-31 17:38:57_0'', 1 * exp (- (1 / 10) * (1 / 10)))]"
proof -
  have r: "run qmi2 [Store clock0 [1, 2, 3] ''direct'' None]
             = (qmi2\<lparr>memory_states := [(''state_UTC - 2025-05-31 17:38:57_0'', state0)]\<rparr>,
                [''state_UTC - 2025-05-31 17:38:57_0''])"
    by (simp add: run_def store_qmi2)
  note t = monitor_constant_decay
    [of "\<lparr>n_qubits = 2\<rparr>" "\<lparr>ems_circuit_manager = \<lparr>n_qubits = 2\<rparr>\<rparr>"
        "[Store clock0 [1, 2, 3] ''direct'' None]", folded qmi2_def]
  from t show ?thesis by (simp add: r state0_def)
qed

text \<open>
  The claim as first stated takes \<open>\<Delta>t\<close> to be the time elapsed since the state was
  stored. Let the first monitoring come \<open>0.1\<close> seconds after the store, where the code
  and the law agree, and the second one second later: the law \<open>spec_fidelity_new\<close> asks
  for the factor \<open>exp (-0.1 \<times> 1.1)\<close>, the code applies \<open>exp (-0.1 \<times> 0.1)\<close> again.
\<close>

theorem monitor_elapsed_time_counterexample:
  "snd (monitor_state_fidelity (fst (run qmi2 [Store clock0 [1, 2, 3] ''direct'' None, Monitor])))
     = Inr [(''state_UTC - 2025-05-31 17:38:57_0'',
             exp (- (1 / 10) * (1 / 10)) * exp (- (1 / 10) * (1 / 10)))] \<and>
   exp (- (1 / 10) * (1 / 10)) * exp (- (1 / 10) * (1 / 10))
     \<noteq> spec_fidelity_new (exp (- (1 / 10) * (1 / 10))) (1 / 10 + 1)"
  by (simp add: run_store_monitor monitor_state_fidelity_def decay_def calculate_storage_time_def
      state0_def spec_fidelity_new_def)

text \<open>
  Claim C8. The identifiers returned by the successful stores of any run of a new
  interface are pairwise distinct, whatever the timestamp service answers and whatever
  data is stored: each one ends in the number of states held when it was generated, and
  that number grows with every successful store.
\<close>

theorem state_ids_distinct: "distinct (snd (run (new_interface cm ems) ops))"
proof -
  have "run_inv (run (new_interface cm ems) ops)" by (rule inv_run)
  then have "ids_ok (snd (run (new_interface cm ems) ops))" by (simp add: run_inv_def)
  then show ?thesis by (rule ids_ok_distinct)
qed

text \<open>
  Storing the same vector twice, at the same second.
\<close>

theorem state_ids_distinct_witness:
  "snd (run qmi2 [Store clock0 [1, 2, 3] ''direct'' None, Store clock0 [1, 2, 3] ''direct'' None])
     = [''state_UTC - 2025-05-31 17:38:57_0'', ''state_UTC - 2025-05-31 17:38:57_1''] \<and>
   distinct (snd (run qmi2 [Store clock0 [1, 2, 3] ''direct'' None,
                            Store clock0 [1, 2, 3] ''direct'' None]))"
proof -
  note t = state_ids_distinct
    [of "\<lparr>n_qubits = 2\<rparr>" "\<lparr>ems_circuit_manager = \<lparr>n_qubits = 2\<rparr>\<rparr>"
        "[Store clock0 [1, 2, 3] ''direct'' None, Store clock0 [1, 2, 3] ''direct'' None]",
     folded qmi2_def]
  have "snd (run qmi2 [Store clock0 [1, 2, 3] ''direct'' None, Store clock0 [1, 2, 3] ''direct'' None])
     = [''state_UTC - 2025-05-31 17:38:57_0'', ''state_UTC - 2025-05-31 17:38:57_1'']"
    by (simp add: run_def store_qmi2 store_qmi2_again)
  with t show ?thesis by simp
qed

text \<open>
  Claim C10. With a scheme name that is not registered, \<open>store_state\<close> raises the
  unknown-scheme error and returns the interface as it was: the generated identifier is
  dropped, nothing is persisted and no stored state changes.
\<close>

theorem store_unknown_scheme_unchanged:
  assumes "scheme \<notin> set (map fst encoding_schemes)"
  shows "store_state e self data scheme metadata = (self, Inl (UnknownEncodingScheme scheme))"
proof -
  from assms have "map_of encoding_schemes scheme = None"
    by (simp add: map_of_eq_None_iff)
  then show ?thesis by (rule store_state_unknown)
qed

text \<open>
  The theorem at the scheme name \<^verbatim>\<open>holographic\<close>.
\<close>

theorem store_unknown_scheme_unchanged_witness:
  "''holographic'' \<notin> set (map fst encoding_schemes) \<and>
   store_state clock0 qmi2 [1, 2, 3] ''holographic'' None
     = (qmi2, Inl (UnknownEncodingScheme ''holographic''))"
proof -
  have h: "''holographic'' \<notin> set (map fst encoding_schemes)" by (simp add: encoding_schemes_def)
  show ?thesis using h store_unknown_scheme_unchanged [OF h] by simp
qed

section \<open>Error mitigation\<close>

lemma error_model_name:
  "map_of (error_models self) s = Some m \<Longrightarrow>
     em_name m = s \<and> s \<in> set [''decoherence'', ''gate_error'', ''measurement'']"
  by (auto simp: error_models_def split: if_splits)

lemma error_model_unknown:
  "map_of (error_models self) s = None \<Longrightarrow>
     s \<notin> set [''decoherence'', ''gate_error'', ''measurement'']"
  by (auto simp: error_models_def split: if_splits)

lemma sr_model_apply_strategy: "sr_model (apply_strategy ts circuit m) = em_name m"
  by (simp add: apply_strategy_def dict_update_def Let_def)

lemma strategies_loop_models:
  "map sr_model (strategies_loop self e k circuit strategies)
     = filter (\<lambda>s. s \<in> set [''decoherence'', ''gate_error'', ''measurement'']) strategies"
proof (induction strategies arbitrary: k)
  case Nil
  show ?case by simp
next
  case (Cons s rest)
  show ?case
  proof (cases "map_of (error_models self) s")
    case None
    with Cons error_model_unknown [OF None] show ?thesis by simp
  next
    case (Some m)
    with Cons error_model_name [OF Some] show ?thesis
      by (simp add: sr_model_apply_strategy)
  qed
qed

text \<open>
  Claim C9. For an explicit list of strategy names, \<open>apply_error_mitigation\<close> returns a
  report and never an error; the model names of its results are the requested names that
  are error models, in the order of the request, the other names being skipped. For the
  list holding \<^verbatim>\<open>decoherence\<close> alone the report has one result, tagged
  \<^verbatim>\<open>decoherence\<close>.
\<close>

theorem known_strategies_applied_in_order:
  "(\<exists>report. apply_error_mitigation self e circuit (Some strategies) = Inr report \<and>
      map sr_model (applied_strategies report)
        = filter (\<lambda>s. s \<in> set [''decoherence'', ''gate_error'', ''measurement'']) strategies) \<and>
   (\<exists>report result. apply_error_mitigation self e circuit (Some [''decoherence'']) = Inr report \<and>
      applied_strategies report = [result] \<and> sr_model result = ''decoherence'')"
proof
  show "\<exists>report. apply_error_mitigation self e circuit (Some strategies) = Inr report \<and>
      map sr_model (applied_strategies report)
        = filter (\<lambda>s. s \<in> set [''decoherence'', ''gate_error'', ''measurement'']) strategies"
    by (simp add: apply_error_mitigation_def strategies_loop_models)
next
  show "\<exists>report result. apply_error_mitigation self e circuit (Some [''decoherence'']) = Inr report \<and>
      applied_strategies report = [result] \<and> sr_model result = ''decoherence''"
    by (simp add: apply_error_mitigation_def error_models_def sr_model_apply_strategy)
qed

section \<open>Encoding\<close>

text \<open>
  The reading of \<open>over_norm\<close> at norm \<open>0\<close>: every entry is then \<open>0\<close>, so every quotient
  is \<open>0 / 0\<close>.
\<close>

lemma norm_zero_entries:
  assumes "np_linalg_norm v = Some 0"
  shows "\<forall>x \<in> set v. x = Some 0"
proof -
  from assms have nn: "None \<notin> set v" and s: "(\<Sum>x\<leftarrow>v. (cmod (the x))\<^sup>2) = 0"
    by (auto simp: np_linalg_norm_def split: if_splits)
  have "\<forall>y \<in> set (map (\<lambda>x. (cmod (the x))\<^sup>2) v). y = 0"
    using s by (subst (asm) sum_list_nonneg_eq_0_iff) auto
  then have "\<forall>x \<in> set v. the x = 0" by auto
  with nn show ?thesis by (metis option.collapse)
qed

lemma length_over_norm [simp]: "length (over_norm v) = length v"
  by (simp add: over_norm_def split: option.splits)

lemma length_np_tile [simp]: "length (np_tile k v) = k * length v"
  by (induction k) (simp_all add: np_tile_def)

lemma length_np_repeat [simp]: "length (np_repeat k v) = k * length v"
  by (induction v) (simp_all add: np_repeat_def)

lemma map_of_configs:
  "map_of (configs self) ''phase'' = Some (snd (configs self ! 1))"
  "map_of (configs self) ''amplitude'' = Some (snd (configs self ! 0))"
  "map_of (configs self) ''superdense'' = Some (superdense_config self)"
  by (simp_all add: configs_def)

lemma length_bell_state: "i < 4 \<Longrightarrow> length (create_bell_states n ! i) = 4"
  by (simp add: create_bell_states_def Let_def nth_Cons' )

lemma superdense_loop_fails:
  assumes "items \<noteq> []" and "length encoded \<noteq> 4"
  shows "superdense_loop (create_bell_states n) encoded items
           = Inl (NotBroadcastable (length encoded) 4)"
proof (cases items)
  case Nil
  with assms show ?thesis by simp
next
  case (Cons p rest)
  obtain i v where p: "p = (i, v)" by (cases p)
  have "length (create_bell_states n ! (i mod 4)) = 4"
    by (rule length_bell_state) simp
  with assms Cons p show ?thesis by (simp add: iadd_def)
qed

lemma length_enumerate_list [simp]: "length (enumerate_list xs) = length xs"
  by (simp add: enumerate_list_def)

text \<open>
  Claim C5, on the code. Encoding \<open>[0.1, 0.2, 0.3, 0.4]\<close> with four qubits by the phase
  method does not return a record to decode: the encoded vector has \<open>16\<close> entries
  (\<open>144\<close> under error protection) and \<open>calculate_encoding_fidelity\<close> takes its
  \<^verbatim>\<open>np.dot\<close> with the four normalised inputs, which raises. The round trip ends in
  that error.
\<close>

theorem phase_encode_fails:
  "encode_quantum_state encoder4 clock0 test_data ''phase'' True = Inl (ShapesNotAligned 4 144) \<and>
   encode_quantum_state encoder4 clock0 test_data ''phase'' False = Inl (ShapesNotAligned 4 16) \<and>
   round_trip encoder4 clock0 test_data ''phase'' True = Inl (ShapesNotAligned 4 144)"
  by (simp add: round_trip_def encode_quantum_state_def map_of_configs configs_def normalize_data_def
      phase_encode_def np_pad_def encoder4_def test_data_def apply_error_protection_def
      apply_phase_flip_code_def calculate_encoding_fidelity_def np_dot_def Let_def)

text \<open>
  The fidelity computation is not the only obstacle. Without error protection, and with
  the fidelity computation set aside, decoding the phase encoding of the test vector
  gives the normalised values \<open>x / \<parallel>x\<parallel>\<close> wrapped into \<open>(-1/2, 1/2]\<close>, about
  \<open>0.1826, 0.3651, -0.4523, -0.2697\<close>; the first is farther than \<open>1e-5\<close> from \<open>0.1\<close>.
\<close>

lemma normalized_test_data:
  "normalize_data (map (\<lambda>x. Some (complex_of_real x)) test_data)
     = map (\<lambda>x. Some (complex_of_real (x / sqrt (3 / 10)))) test_data"
proof -
  have "(1 / 10)\<^sup>2 + ((2 / 10)\<^sup>2 + ((3 / 10)\<^sup>2 + (4 / 10)\<^sup>2)) = (3 / 10 :: real)"
    by (simp add: power2_eq_square)
  then show ?thesis
    by (simp add: normalize_data_def over_norm_def np_linalg_norm_def test_data_def
        norm_divide power_divide)
qed

lemma exp_phase_cis: "exp (2 * \<i> * complex_of_real pi * complex_of_real x) = cis (2 * pi * x)"
  by (simp add: cis_conv_exp mult_ac)

lemma Arg_phase:
  assumes "- (1 / 2) < x" and "x \<le> 1 / 2"
  shows "Arg (exp (2 * \<i> * complex_of_real pi * complex_of_real x)) / (2 * pi) = x"
proof -
  have "pi * (- 1) < pi * (2 * x)" using assms(1) by (intro mult_strict_left_mono) simp_all
  then have lo: "- pi < 2 * pi * x" by (simp add: mult_ac)
  have "pi * (2 * x) \<le> pi * 1" using assms(2) by (intro mult_left_mono) simp_all
  then have hi: "2 * pi * x \<le> pi" by (simp add: mult_ac)
  have "sgn (cis (2 * pi * x)) = cis (2 * pi * x)" by (simp add: sgn_eq)
  then have "Arg (cis (2 * pi * x)) = 2 * pi * x" using lo hi by (rule cis_Arg_unique)
  then show ?thesis by (simp add: exp_phase_cis)
qed

lemma Arg_phase_wrapped:
  assumes "1 / 2 < x" and "x \<le> 3 / 2"
  shows "Arg (exp (2 * \<i> * complex_of_real pi * complex_of_real x)) / (2 * pi) = x - 1"
proof -
  have "2 * pi * x = 2 * pi * (x - 1) + 2 * pi" by (simp add: algebra_simps)
  then have "cis (2 * pi * x) = cis (2 * pi * (x - 1) + 2 * pi)" by simp
  also have "\<dots> = cis (2 * pi * (x - 1))" by (simp only: cis.ctr cos_periodic sin_periodic)
  finally have "cis (2 * pi * x) = cis (2 * pi * (x - 1))" .
  then have "exp (2 * \<i> * complex_of_real pi * complex_of_real x)
               = exp (2 * \<i> * complex_of_real pi * complex_of_real (x - 1))"
    by (simp only: exp_phase_cis)
  moreover have "Arg (exp (2 * \<i> * complex_of_real pi * complex_of_real (x - 1))) / (2 * pi) = x - 1"
    using assms by (intro Arg_phase) simp_all
  ultimately show ?thesis by simp
qed

lemma sqrt_3_10_bounds: "1 / 2 < sqrt (3 / 10)" "sqrt (3 / 10) < 3 / 5"
proof -
  show "1 / 2 < sqrt (3 / 10)" by (rule real_less_rsqrt) (simp add: power2_eq_square)
  show "sqrt (3 / 10) < 3 / 5" by (rule real_less_lsqrt) (simp_all add: power2_eq_square)
qed

lemma phase_decode_four:
  fixes s :: real
  assumes lo: "1 / 2 < s" and hi: "s < 3 / 5"
  shows "phase_decode
           (map (map_option (\<lambda>x. exp (2 * \<i> * complex_of_real pi * x)))
              (map (\<lambda>x. Some (complex_of_real (x / s))) [1 / 10, 2 / 10, 3 / 10, 4 / 10])
            @ replicate 12 (Some 0))
         = [Some (1 / (10 * s)), Some (1 / (5 * s)), Some (3 / (10 * s) - 1), Some (2 / (5 * s) - 1)]"
proof -
  have a1: "Arg (exp (2 * \<i> * complex_of_real pi * complex_of_real (1 / (10 * s)))) / (2 * pi)
              = 1 / (10 * s)"
    by (rule Arg_phase) (use lo hi in \<open>simp_all add: field_simps\<close>)
  have a2: "Arg (exp (2 * \<i> * complex_of_real pi * complex_of_real (1 / (5 * s)))) / (2 * pi)
              = 1 / (5 * s)"
    by (rule Arg_phase) (use lo hi in \<open>simp_all add: field_simps\<close>)
  have a3: "Arg (exp (2 * \<i> * complex_of_real pi * complex_of_real (3 / (10 * s)))) / (2 * pi)
              = 3 / (10 * s) - 1"
    by (rule Arg_phase_wrapped) (use lo hi in \<open>simp_all add: field_simps\<close>)
  have a4: "Arg (exp (2 * \<i> * complex_of_real pi * complex_of_real (2 / (5 * s)))) / (2 * pi)
              = 2 / (5 * s) - 1"
    by (rule Arg_phase_wrapped) (use lo hi in \<open>simp_all add: field_simps\<close>)
  have e: "complex_of_real a / complex_of_real b = complex_of_real (a / b)" for a b by simp
  show ?thesis
    using a1 a2 a3 a4 by (simp add: phase_decode_def e del: of_real_divide)
qed

lemma phase_decode_of_encode:
  "map_sum id phase_decode
     (phase_encode encoder4 (normalize_data (map (\<lambda>x. Some (complex_of_real x)) test_data)))
   = Inr [Some (1 / (10 * sqrt (3 / 10))), Some (1 / (5 * sqrt (3 / 10))),
          Some (3 / (10 * sqrt (3 / 10)) - 1), Some (2 / (5 * sqrt (3 / 10)) - 1)]"
proof -
  have "phase_encode encoder4 (normalize_data (map (\<lambda>x. Some (complex_of_real x)) test_data))
          = Inr (map (map_option (\<lambda>x. exp (2 * \<i> * complex_of_real pi * x)))
              (map (\<lambda>x. Some (complex_of_real (x / sqrt (3 / 10)))) [1 / 10, 2 / 10, 3 / 10, 4 / 10])
            @ replicate 12 (Some 0))"
    unfolding normalized_test_data
    by (simp add: phase_encode_def np_pad_def encoder4_def test_data_def)
  then show ?thesis
    by (simp only: map_sum.simps id_apply phase_decode_four [OF sqrt_3_10_bounds])
qed

lemma first_decoded_value_off: "1 / 10 + 1 / 100000 < 1 / (10 * sqrt (3 / 10))"
proof -
  have "1 / 10 + 1 / 100000 < 1 / (10 * s)" if "0 < s" "s < 3 / 5" for s :: real
    using that by (simp add: field_simps)
  from this [of "sqrt (3 / 10)"] sqrt_3_10_bounds show ?thesis by simp
qed

text \<open>
  Claim C7, on the code. Encoding a four-element vector with four qubits by the
  superdense method raises in the first turn of the loop: the accumulator has
  \<open>2 ^ (2 * 2) = 16\<close> entries and a Bell vector has four, so the in-place addition
  cannot broadcast. No encoded state reaches the decoder.
\<close>

theorem superdense_encode_fails:
  "encode_quantum_state encoder4 clock0 test_data ''superdense'' True
     = Inl (NotBroadcastable 16 4) \<and>
   encode_quantum_state encoder4 clock0 test_data ''superdense'' False
     = Inl (NotBroadcastable 16 4) \<and>
   round_trip encoder4 clock0 test_data ''superdense'' True = Inl (NotBroadcastable 16 4)"
proof -
  define data where "data = normalize_data (map (\<lambda>x. Some (complex_of_real x)) test_data)"
  have len: "length data = 4" by (simp add: data_def normalize_data_def test_data_def)
  have "length (enumerate_list (take 2 data)) = 2" by (simp add: len)
  then have ne: "enumerate_list (take 2 data) \<noteq> []"
    by (metis list.size(3) zero_neq_numeral)
  have "superdense_loop (create_bell_states 2) (replicate 16 (Some 0)) (enumerate_list (take 2 data))
          = Inl (NotBroadcastable (length (replicate 16 (Some 0 :: complex option))) 4)"
    by (rule superdense_loop_fails [OF ne]) simp
  then have "superdense_encode encoder4 data = Inl (NotBroadcastable 16 4)"
    by (simp add: superdense_encode_def superdense_config_def encoder4_def)
  then have "encode_quantum_state encoder4 clock0 test_data ''superdense'' p
               = Inl (NotBroadcastable 16 4)" for p
    by (simp add: encode_quantum_state_def map_of_configs data_def [symmetric])
  then show ?thesis by (simp add: round_trip_def)
qed

lemma norm_zeros: "np_linalg_norm (replicate k (Some 0)) = Some 0"
  by (induction k) (simp_all add: np_linalg_norm_def)

lemma over_norm_zeros: "over_norm (replicate k (Some 0)) = replicate k None"
  by (simp add: over_norm_def norm_zeros map_replicate)

lemma normalize_zeros: "normalize_data (replicate k (Some 0)) = replicate k None"
  by (simp add: normalize_data_def over_norm_zeros)

lemma log_encoding_result:
  "log_event ''quantum'' ''INFO'' message (encoding_kwargs r) = Inl (NotJSONSerializable ''ndarray'')"
  by (simp add: log_event_def log_categories_def log_levels_def encoding_kwargs_def)

lemma np_pad_shape:
  "np_pad v (int m - int (length v)) =
     (if m < length v then Inl PadNegative else Inr (v @ replicate (m - length v) (Some 0)))"
  by (auto simp: np_pad_def nat_diff_distrib')

lemma fidelity_shape:
  "map_sum id (\<lambda>f. ()) (calculate_encoding_fidelity a b) =
     (if length a \<noteq> length b then Inl (ShapesNotAligned (length a) (length b)) else Inr ())"
  by (simp add: calculate_encoding_fidelity_def np_dot_def)

lemma fidelity_cases:
  obtains "length a \<noteq> length b"
      and "calculate_encoding_fidelity a b = Inl (ShapesNotAligned (length a) (length b))"
  | f where "length a = length b" and "calculate_encoding_fidelity a b = Inr f"
  by (cases "length a = length b") (auto simp: calculate_encoding_fidelity_def np_dot_def)

lemma length_apply_error_protection:
  "length (apply_error_protection v method) =
     (if method = ''amplitude'' then 3 else if method = ''phase'' then 9 else 7) * length v"
  by (simp add: apply_error_protection_def apply_phase_flip_code_def apply_stabilizer_code_def Let_def)

text \<open>
  The end of \<open>encode_quantum_state\<close>, from the fidelity computation on: a shape error,
  or else the error of logging the record.
\<close>

lemma encode_tail:
  "(let encoded_state = es
    in case calculate_encoding_fidelity nd encoded_state of
         Inl err \<Rightarrow> Inl err
       | Inr fidelity \<Rightarrow>
           (let encoding_result =
                  \<lparr>er_timestamp = ts, er_method = method, er_state_vector = encoded_state,
                   er_n_qubits_used = length encoded_state, er_error_protected = p,
                   er_fidelity = fidelity\<rparr>
            in case log_event ''quantum'' ''INFO'' ''Quantum state encoded''
                      (encoding_kwargs encoding_result) of
                 Inl err \<Rightarrow> Inl err
               | Inr logged \<Rightarrow> Inr encoding_result))
   = Inl (if length nd \<noteq> length es then ShapesNotAligned (length nd) (length es)
          else NotJSONSerializable ''ndarray'')"
  by (rule fidelity_cases [of nd es]) (simp_all add: log_encoding_result Let_def)

lemma encode_amplitude:
  "encode_quantum_state self e data ''amplitude'' p =
     Inl (if 2 ^ enc_n_qubits self < length data then PadNegative
          else if length data \<noteq> (if p then 3 else 1) * 2 ^ enc_n_qubits self
          then ShapesNotAligned (length data) ((if p then 3 else 1) * 2 ^ enc_n_qubits self)
          else NotJSONSerializable ''ndarray'')"
  by (simp add: encode_quantum_state_def map_of_configs configs_def normalize_data_def
      amplitude_encode_def np_pad_shape encode_tail length_apply_error_protection
      del: Let_def)

lemma encode_phase:
  "encode_quantum_state self e data ''phase'' p =
     Inl (if 2 ^ enc_n_qubits self < length data then PadNegative
          else if length data \<noteq> (if p then 9 else 1) * 2 ^ enc_n_qubits self
          then ShapesNotAligned (length data) ((if p then 9 else 1) * 2 ^ enc_n_qubits self)
          else NotJSONSerializable ''ndarray'')"
  by (simp add: encode_quantum_state_def map_of_configs configs_def normalize_data_def
      phase_encode_def np_pad_shape encode_tail length_apply_error_protection
      del: Let_def)

lemma superdense_loop_shape:
  "map_sum id length (superdense_loop (create_bell_states n) encoded items) =
     (if items = [] then Inr (length encoded)
      else if length encoded = 4 then Inr 4
      else Inl (NotBroadcastable (length encoded) 4))"
proof (induction items arbitrary: encoded)
  case Nil
  show ?case by simp
next
  case (Cons item rest)
  obtain i v where item: "item = (i, v)" by (cases item)
  have b: "length (create_bell_states n ! (i mod 4)) = 4"
    by (rule length_bell_state) simp
  show ?case
  proof (cases "length encoded = 4")
    case True
    with b have "iadd encoded (map (mul_opt v) (create_bell_states n ! (i mod 4)))
                   = Inr (map2 add_opt encoded (map (mul_opt v) (create_bell_states n ! (i mod 4))))"
      by (simp add: iadd_def)
    moreover have "length (map2 add_opt encoded (map (mul_opt v) (create_bell_states n ! (i mod 4)))) = 4"
      using True b by simp
    ultimately show ?thesis using True item Cons.IH by simp
  next
    case False
    with b item show ?thesis by (simp add: iadd_def)
  qed
qed

lemma superdense_encode_cases:
  obtains "take (enc_n_qubits self div 2) a \<noteq> []" and "2 ^ (2 * (enc_n_qubits self div 2)) \<noteq> (4::nat)"
      and "superdense_encode self a = Inl (NotBroadcastable (2 ^ (2 * (enc_n_qubits self div 2))) 4)"
  | es where "take (enc_n_qubits self div 2) a = [] \<or> 2 ^ (2 * (enc_n_qubits self div 2)) = (4::nat)"
      and "superdense_encode self a = Inr es"
      and "length es = 2 ^ (2 * (enc_n_qubits self div 2))"
proof -
  define n where "n = enc_n_qubits self div 2"
  define l where "l = superdense_loop (create_bell_states n) (replicate (2 ^ (2 * n)) (Some 0))
                        (enumerate_list (take n a))"
  have e: "enumerate_list (take n a) = [] \<longleftrightarrow> take n a = []"
    by (metis length_enumerate_list length_0_conv)
  have sh: "map_sum id length l =
     (if take n a = [] then Inr (2 ^ (2 * n))
      else if 2 ^ (2 * n) = (4::nat) then Inr 4
      else Inl (NotBroadcastable (2 ^ (2 * n)) 4))"
    unfolding l_def by (simp add: superdense_loop_shape e)
  have enc: "superdense_encode self a = (case l of Inl err \<Rightarrow> Inl err | Inr es \<Rightarrow> Inr (over_norm es))"
    by (simp add: superdense_encode_def superdense_config_def n_def l_def Let_def)
  show ?thesis
  proof (cases l)
    case (Inl err)
    with sh have "take n a \<noteq> []" "2 ^ (2 * n) \<noteq> (4::nat)" "err = NotBroadcastable (2 ^ (2 * n)) 4"
      by (auto split: if_splits)
    with Inl enc that(1) show ?thesis by (simp add: n_def)
  next
    case (Inr es)
    with sh have "take n a = [] \<or> 2 ^ (2 * n) = (4::nat)" "length es = 2 ^ (2 * n)"
      by (auto split: if_splits)
    with Inr enc that(2) [of "over_norm es"] show ?thesis by (simp add: n_def)
  qed
qed

lemma encode_superdense:
  "encode_quantum_state self e data ''superdense'' p =
     Inl (if take (enc_n_qubits self div 2) data \<noteq> [] \<and> 2 ^ (2 * (enc_n_qubits self div 2)) \<noteq> (4::nat)
          then NotBroadcastable (2 ^ (2 * (enc_n_qubits self div 2))) 4
          else if length data \<noteq> (if p then 7 else 1) * 2 ^ (2 * (enc_n_qubits self div 2))
          then ShapesNotAligned (length data)
                 ((if p then 7 else 1) * 2 ^ (2 * (enc_n_qubits self div 2)))
          else NotJSONSerializable ''ndarray'')"
proof -
  define nd where "nd = normalize_data (map (\<lambda>x. Some (complex_of_real x)) data)"
  have len: "length nd = length data" by (simp add: nd_def normalize_data_def)
  have tk: "take k nd = [] \<longleftrightarrow> take k data = []" for k
    using len by (metis length_0_conv length_take)
  show ?thesis
  proof (rule superdense_encode_cases [of self nd])
    assume a: "take (enc_n_qubits self div 2) nd \<noteq> []"
      and b: "2 ^ (2 * (enc_n_qubits self div 2)) \<noteq> (4::nat)"
      and c: "superdense_encode self nd = Inl (NotBroadcastable (2 ^ (2 * (enc_n_qubits self div 2))) 4)"
    from a tk [of "enc_n_qubits self div 2"]
    have a': "take (enc_n_qubits self div 2) data \<noteq> []" by blast
    have "encode_quantum_state self e data ''superdense'' p
            = Inl (NotBroadcastable (2 ^ (2 * (enc_n_qubits self div 2))) 4)"
      by (simp add: encode_quantum_state_def map_of_configs nd_def [symmetric] c)
    with a' b show ?thesis by (simp only: simp_thms if_True)
  next
    fix es
    assume a: "take (enc_n_qubits self div 2) nd = [] \<or> 2 ^ (2 * (enc_n_qubits self div 2)) = (4::nat)"
      and b: "superdense_encode self nd = Inr es"
      and c: "length es = 2 ^ (2 * (enc_n_qubits self div 2))"
    from a tk [of "enc_n_qubits self div 2"]
    have a': "\<not> (take (enc_n_qubits self div 2) data \<noteq> [] \<and> 2 ^ (2 * (enc_n_qubits self div 2)) \<noteq> (4::nat))"
      by blast
    have "encode_quantum_state self e data ''superdense'' p =
            Inl (if length data \<noteq> (if p then 7 else 1) * 2 ^ (2 * (enc_n_qubits self div 2))
                 then ShapesNotAligned (length data)
                        ((if p then 7 else 1) * 2 ^ (2 * (enc_n_qubits self div 2)))
                 else NotJSONSerializable ''ndarray'')"
      unfolding encode_quantum_state_def
      by (simp add: map_of_configs superdense_config_def nd_def [symmetric] b encode_tail
          length_apply_error_protection c len del: Let_def)
    then show ?thesis by (simp only: a' if_False)
  qed
qed

lemma encode_unknown:
  "method \<notin> set [''amplitude'', ''phase'', ''superdense''] \<Longrightarrow>
     encode_quantum_state self e data method p = Inl (UnknownEncodingMethod method)"
  by (simp add: encode_quantum_state_def configs_def)

lemma take_eq_Nil_length: "length a = length b \<Longrightarrow> take k a = [] \<longleftrightarrow> take k b = []"
  by (metis length_0_conv length_take)




end
